theory Spec2Isabelle
  imports Main "HOL-Library.Word"
begin

unbundle bit_operations_syntax

section \<open>The program's view of the kernel and of the C library\<close>

text \<open>
  \<^verbatim>\<open>capture.c\<close> is a sequence of system and library calls on \<^verbatim>\<open>/dev/video0\<close> and on
  \<^verbatim>\<open>frame.jpg\<close>. The model runs the program against an environment that fixes, ahead of
  the run, what each call answers; every call the program makes is appended to a trace,
  with the arguments that matter below and with its outcome. Messages printed with
  \<^verbatim>\<open>fprintf\<close> and \<^verbatim>\<open>perror\<close> are left out, and they are taken not to touch \<^verbatim>\<open>errno\<close>.
\<close>

type_synonym u32 = "32 word"

text \<open>An automatic variable that was never assigned holds no determined value.\<close>

datatype 'a cvar = Indeterminate | Val 'a

datatype v4l2_buf_type = V4L2_BUF_TYPE_VIDEO_CAPTURE

text \<open>The values \<^verbatim>\<open>_buffer\<close> takes: its initialiser, the failure value of \<^verbatim>\<open>mmap\<close>, an address.\<close>

datatype ptr = NULL | MAP_FAILED | Addr nat

text \<open>What \<^verbatim>\<open>select\<close> returns: -1 with an \<^verbatim>\<open>errno\<close>, 0 after the two seconds, or 1.\<close>

datatype sel_reply = Sel_error int | Sel_timeout | Sel_ready

text \<open>
  A failing call answers \<open>Inl errno\<close>, a successful one \<open>Inr\<close> with what it hands back.
  One round is one pass of the \<^verbatim>\<open>for (;;)\<close> of \<^verbatim>\<open>main_loop\<close>: the answer of its
  \<^verbatim>\<open>select\<close> and the answers the calls of \<^verbatim>\<open>read_frame\<close> get if that pass makes them.
  \<open>dqbuf_r\<close> carries the \<^verbatim>\<open>index\<close> and \<^verbatim>\<open>bytesused\<close> fields the driver fills in.
\<close>

record round =
  select_r :: sel_reply
  dqbuf_r :: "int + (u32 \<times> u32)"
  qbuf_r :: "int + unit"
  fopen_r :: "int + unit"
  fwrite_r :: "int + unit"
  fclose_r :: "int + unit"

text \<open>
  The calls outside the loop are made at most once each. \<^verbatim>\<open>open\<close> hands back a descriptor,
  which is never negative; \<^verbatim>\<open>VIDIOC_QUERYCAP\<close> the capability bits; \<^verbatim>\<open>VIDIOC_QUERYBUF\<close>
  the length of buffer 0; \<^verbatim>\<open>mmap\<close> an address.
\<close>

record env =
  open_r :: "int + nat"
  querycap_r :: "int + u32"
  s_fmt_r :: "int + unit"
  reqbufs_r :: "int + unit"
  querybuf_r :: "int + u32"
  mmap_r :: "int + nat"
  qbuf0_r :: "int + unit"
  streamon_r :: "int + unit"
  rounds :: "round list"
  streamoff_r :: "int + unit"
  munmap_r :: "int + unit"
  close_r :: "int + unit"

datatype event =
    E_open bool
  | E_querycap bool
  | E_s_fmt bool
  | E_reqbufs bool
  | E_querybuf bool
  | E_mmap bool
  | E_qbuf u32 bool
  | E_streamon "v4l2_buf_type cvar" bool
  | E_select sel_reply
  | E_dqbuf bool
  | E_fopen string bool
  | E_fwrite ptr int bool
  | E_fclose bool
  | E_streamoff "v4l2_buf_type cvar" bool
  | E_munmap ptr u32 bool
  | E_close int bool

text \<open>
  The four file-scope variables of \<^verbatim>\<open>capture.c\<close>, \<^verbatim>\<open>errno\<close>, and the trace.
  \<^verbatim>\<open>frames_received\<close> is a C \<^verbatim>\<open>int\<close>; no run takes it past 5 (lemma \<open>main_frames_le\<close>), so it
  is an unbounded integer here.
\<close>

record state =
  fd :: int
  buffer :: ptr
  len_buff :: u32
  frames_received :: int
  errno :: int
  trace :: "event list"

definition init_state :: state where
  "init_state =
     \<lparr>fd = 0, buffer = NULL, len_buff = 0, frames_received = 0, errno = 0, trace = []\<rparr>"

text \<open>
  Constants of \<^verbatim>\<open>linux/videodev2.h\<close> and \<^verbatim>\<open>errno.h\<close> with the values Linux gives them, and
  the macro \<^verbatim>\<open>STORE_AFTER_X_FRAMES\<close> of \<^verbatim>\<open>capture.c\<close>. The file name \<^verbatim>\<open>"frame.jpg"\<close> is
  written out in \<^verbatim>\<open>process_image\<close>, as it is in the source.
\<close>

definition V4L2_CAP_VIDEO_CAPTURE :: u32 where "V4L2_CAP_VIDEO_CAPTURE = 0x00000001"
definition V4L2_CAP_STREAMING :: u32 where "V4L2_CAP_STREAMING = 0x04000000"
definition EINTR :: int where "EINTR = 4"
definition EAGAIN :: int where "EAGAIN = 11"
definition STORE_AFTER_X_FRAMES :: int where "STORE_AFTER_X_FRAMES = 5"

definition emit :: "event \<Rightarrow> state \<Rightarrow> state" where
  "emit ev s = s\<lparr>trace := trace s @ [ev]\<rparr>"

text \<open>
  A call that returns -1 and sets \<^verbatim>\<open>errno\<close> when it fails and 0 when it succeeds
  (\<^verbatim>\<open>ioctl\<close>, \<^verbatim>\<open>munmap\<close>, \<^verbatim>\<open>close\<close>). A successful call leaves \<^verbatim>\<open>errno\<close> as it was.
\<close>

definition syscall :: "(bool \<Rightarrow> event) \<Rightarrow> int + 'a \<Rightarrow> state \<Rightarrow> int \<times> state" where
  "syscall ev r s =
     (case r of
        Inl e \<Rightarrow> (- 1, emit (ev False) (s\<lparr>errno := e\<rparr>))
      | Inr _ \<Rightarrow> (0, emit (ev True) s))"

section \<open>The functions of capture.c\<close>

definition open_device :: "env \<Rightarrow> state \<Rightarrow> int \<times> state" where
  "open_device e s =
     (let s1 = (case open_r e of
                  Inl er \<Rightarrow> emit (E_open False) (s\<lparr>fd := - 1, errno := er\<rparr>)
                | Inr d \<Rightarrow> emit (E_open True) (s\<lparr>fd := int d\<rparr>))
      in if fd s1 < 0 then (errno s1, s1) else (0, s1))"

definition init_device :: "env \<Rightarrow> state \<Rightarrow> int \<times> state" where
  "init_device e s =
     (case querycap_r e of
        Inl er \<Rightarrow> (er, emit (E_querycap False) (s\<lparr>errno := er\<rparr>))
      | Inr caps \<Rightarrow>
          (let s1 = emit (E_querycap True) s in
           if caps AND V4L2_CAP_VIDEO_CAPTURE = 0 then (- 1, s1)
           else if caps AND V4L2_CAP_STREAMING = 0 then (- 1, s1)
           else (case syscall E_s_fmt (s_fmt_r e) s1 of
                   (r, s2) \<Rightarrow> if r < 0 then (errno s2, s2) else (0, s2))))"

definition init_mmap :: "env \<Rightarrow> state \<Rightarrow> int \<times> state" where
  "init_mmap e s =
     (case syscall E_reqbufs (reqbufs_r e) s of
        (r, s1) \<Rightarrow>
          if r < 0 then (errno s1, s1)
          else (case querybuf_r e of
                  Inl er \<Rightarrow> (er, emit (E_querybuf False) (s1\<lparr>errno := er\<rparr>))
                | Inr len \<Rightarrow>
                    (let s2 = (emit (E_querybuf True) s1)\<lparr>len_buff := len\<rparr>;
                         s3 = (case mmap_r e of
                                 Inl er \<Rightarrow> emit (E_mmap False) (s2\<lparr>buffer := MAP_FAILED, errno := er\<rparr>)
                               | Inr a \<Rightarrow> emit (E_mmap True) (s2\<lparr>buffer := Addr a\<rparr>))
                     in if buffer s3 = MAP_FAILED then (errno s3, s3) else (0, s3))))"

definition start_capturing :: "env \<Rightarrow> state \<Rightarrow> int \<times> state" where
  "start_capturing e s =
     (case syscall (E_qbuf 0) (qbuf0_r e) s of
        (r, s1) \<Rightarrow>
          if r < 0 then (errno s1, s1)
          else (let type = Val V4L2_BUF_TYPE_VIDEO_CAPTURE in
                case syscall (E_streamon type) (streamon_r e) s1 of
                  (r2, s2) \<Rightarrow> if r2 < 0 then (errno s2, s2) else (0, s2)))"

text \<open>
  \<^verbatim>\<open>process_image\<close>: the file is opened with mode \<^verbatim>\<open>"wb"\<close>, which creates or truncates it.
  What \<^verbatim>\<open>fwrite\<close> and \<^verbatim>\<open>fclose\<close> return is not looked at, so only their call and what
  they do to \<^verbatim>\<open>errno\<close> is kept. The parameter \<^verbatim>\<open>size\<close>, a C \<^verbatim>\<open>int\<close>, is \<open>sz\<close> here.
\<close>

definition process_image :: "round \<Rightarrow> ptr \<Rightarrow> int \<Rightarrow> state \<Rightarrow> int \<times> state" where
  "process_image r data sz s =
     (case fopen_r r of
        Inl er \<Rightarrow> (- 1, emit (E_fopen ''frame.jpg'' False) (s\<lparr>errno := er\<rparr>))
      | Inr _ \<Rightarrow>
          (let s1 = emit (E_fopen ''frame.jpg'' True) s;
               s2 = snd (syscall (E_fwrite data sz) (fwrite_r r) s1);
               s3 = snd (syscall E_fclose (fclose_r r) s2)
           in (0, s3)))"

text \<open>
  \<^verbatim>\<open>read_frame\<close>. \<^verbatim>\<open>buf.bytesused\<close> is a \<^verbatim>\<open>__u32\<close> passed for the \<^verbatim>\<open>int\<close> parameter of
  \<^verbatim>\<open>process_image\<close>, so it arrives as its two's-complement reading. The return value of
  \<^verbatim>\<open>process_image\<close> is dropped.
\<close>

definition read_frame :: "round \<Rightarrow> state \<Rightarrow> int \<times> state" where
  "read_frame r s =
     (case dqbuf_r r of
        Inl er \<Rightarrow>
          (let s1 = emit (E_dqbuf False) (s\<lparr>errno := er\<rparr>) in
           if errno s1 = EAGAIN then (0, s1) else (errno s1, s1))
      | Inr (index, bytesused) \<Rightarrow>
          (let s1 = emit (E_dqbuf True) s;
               s2 = s1\<lparr>frames_received := frames_received s1 + 1\<rparr>
           in if frames_received s2 = STORE_AFTER_X_FRAMES
              then (1, snd (process_image r (buffer s2) (sint bytesused) s2))
              else (case syscall (E_qbuf index) (qbuf_r r) s2 of
                      (q, s3) \<Rightarrow> if q < 0 then (errno s3, s3) else (0, s3))))"

text \<open>
  The \<^verbatim>\<open>for (;;)\<close> of \<^verbatim>\<open>main_loop\<close> leaves by \<^verbatim>\<open>return errno\<close> or by \<^verbatim>\<open>break\<close>. Each pass
  takes one round of the environment; \<open>None\<close> says that the loop is still waiting when
  the rounds are used up.
\<close>

datatype loop_exit = Return int | Break

fun for_loop :: "round list \<Rightarrow> state \<Rightarrow> (loop_exit \<times> state) option" where
  "for_loop [] s = None"
| "for_loop (r # rs) s =
     (case select_r r of
        Sel_error er \<Rightarrow>
          (let s1 = emit (E_select (Sel_error er)) (s\<lparr>errno := er\<rparr>) in
           if EINTR = errno s1 then for_loop rs s1
           else Some (Return (errno s1), s1))
      | Sel_timeout \<Rightarrow>
          (let s1 = emit (E_select Sel_timeout) s in Some (Return (errno s1), s1))
      | Sel_ready \<Rightarrow>
          (case read_frame r (emit (E_select Sel_ready) s) of
             (rc, s1) \<Rightarrow> if rc \<noteq> 0 then Some (Break, s1) else for_loop rs s1))"

text \<open>
  \<^verbatim>\<open>main_loop\<close>: \<^verbatim>\<open>count\<close> is 70 when \<^verbatim>\<open>while (count-- > 0)\<close> is first tested, so the body is
  entered; the body ends in \<^verbatim>\<open>return 0\<close>, so the test is never made a second time and
  \<^verbatim>\<open>count\<close> plays no further part.
\<close>

definition main_loop :: "round list \<Rightarrow> state \<Rightarrow> (int \<times> state) option" where
  "main_loop rs s =
     (case for_loop rs s of
        None \<Rightarrow> None
      | Some (Return rc, s1) \<Rightarrow> Some (rc, s1)
      | Some (Break, s1) \<Rightarrow> Some (0, s1))"

text \<open>\<^verbatim>\<open>stop_capturing\<close>: \<^verbatim>\<open>type\<close> is declared and never assigned.\<close>

definition stop_capturing :: "env \<Rightarrow> state \<Rightarrow> int \<times> state" where
  "stop_capturing e s =
     (let type = Indeterminate in
      case syscall (E_streamoff type) (streamoff_r e) s of
        (r, s1) \<Rightarrow> if r < 0 then (- 1, s1) else (0, s1))"

definition uninit_mmap :: "env \<Rightarrow> state \<Rightarrow> int \<times> state" where
  "uninit_mmap e s =
     (case syscall (E_munmap (buffer s) (len_buff s)) (munmap_r e) s of
        (r, s1) \<Rightarrow> if - 1 = r then (- 1, s1) else (0, s1\<lparr>buffer := NULL\<rparr>))"

definition close_device :: "env \<Rightarrow> state \<Rightarrow> int \<times> state" where
  "close_device e s =
     (case syscall (E_close (fd s)) (close_r e) s of
        (r, s1) \<Rightarrow> if - 1 = r then (- 1, s1) else (0, s1))"

text \<open>\<^verbatim>\<open>main\<close>, from the state the program starts in. The result is the value returned.\<close>

definition main :: "env \<Rightarrow> (int \<times> state) option" where
  "main e =
     (case open_device e init_state of (r1, s1) \<Rightarrow>
      if r1 \<noteq> 0 then Some (- 1, s1) else
      case init_device e s1 of (r2, s2) \<Rightarrow>
      if r2 \<noteq> 0 then Some (- 1, snd (close_device e s2)) else
      case init_mmap e s2 of (r3, s3) \<Rightarrow>
      if r3 \<noteq> 0 then Some (- 1, snd (close_device e s3)) else
      case start_capturing e s3 of (r4, s4) \<Rightarrow>
      if r4 \<noteq> 0 then Some (- 1, snd (close_device e (snd (uninit_mmap e s4)))) else
     (case main_loop (rounds e) s4 of
        None \<Rightarrow> None
      | Some (r5, s5) \<Rightarrow>
      if r5 \<noteq> 0 then Some (- 1, snd (close_device e (snd (uninit_mmap e s5)))) else
      case stop_capturing e s5 of (r6, s6) \<Rightarrow>
      if r6 \<noteq> 0 then Some (- 1, snd (close_device e (snd (uninit_mmap e s6)))) else
      case uninit_mmap e s6 of (r7, s7) \<Rightarrow>
      if r7 \<noteq> 0 then Some (- 1, snd (close_device e s7)) else
      case close_device e s7 of (r8, s8) \<Rightarrow>
      if r8 \<noteq> 0 then Some (- 1, s8) else Some (0, s8)))"

text \<open>
  The part of \<^verbatim>\<open>main\<close> before \<^verbatim>\<open>main_loop\<close>: the state in which the loop is entered, or
  \<open>None\<close> when one of the four phases before it returned non-zero and \<^verbatim>\<open>main\<close> rolled back.
\<close>

definition entered_loop :: "env \<Rightarrow> state option" where
  "entered_loop e =
     (case open_device e init_state of (r1, s1) \<Rightarrow>
      if r1 \<noteq> 0 then None else
      case init_device e s1 of (r2, s2) \<Rightarrow>
      if r2 \<noteq> 0 then None else
      case init_mmap e s2 of (r3, s3) \<Rightarrow>
      if r3 \<noteq> 0 then None else
      case start_capturing e s3 of (r4, s4) \<Rightarrow>
      if r4 \<noteq> 0 then None else Some s4)"

text \<open>
  A pass after which the loop can still be waiting: the wait was interrupted, or the
  descriptor was readable and \<^verbatim>\<open>read_frame\<close> had a way to return 0 (no frame ready, or a
  frame queued again; a failure that leaves \<^verbatim>\<open>errno\<close> at 0 would count too).
\<close>

definition keeps_waiting :: "round \<Rightarrow> bool" where
  "keeps_waiting r =
     (case select_r r of
        Sel_error er \<Rightarrow> er = EINTR
      | Sel_timeout \<Rightarrow> False
      | Sel_ready \<Rightarrow>
          (case dqbuf_r r of
             Inl er \<Rightarrow> er = EAGAIN \<or> er = 0
           | Inr _ \<Rightarrow> (case qbuf_r r of Inl er \<Rightarrow> er = 0 | Inr _ \<Rightarrow> True)))"

section \<open>Concrete environments\<close>

text \<open>
  A pass of the loop in which the descriptor is readable and every call succeeds; the
  driver hands back buffer 0 with 1000 bytes used.
\<close>

definition ok_round :: round where
  "ok_round = \<lparr>select_r = Sel_ready, dqbuf_r = Inr (0, 1000), qbuf_r = Inr (),
                fopen_r = Inr (), fwrite_r = Inr (), fclose_r = Inr ()\<rparr>"

text \<open>A device that advertises capture and streaming and on which every call succeeds.\<close>

definition ok_env :: env where
  "ok_env = \<lparr>open_r = Inr 3, querycap_r = Inr 0x04200001, s_fmt_r = Inr (),
              reqbufs_r = Inr (), querybuf_r = Inr 614400, mmap_r = Inr 4096,
              qbuf0_r = Inr (), streamon_r = Inr (),
              rounds = [ok_round, ok_round, ok_round, ok_round, ok_round],
              streamoff_r = Inr (), munmap_r = Inr (), close_r = Inr ()\<rparr>"

text \<open>The state in which \<open>main\<close> leaves \<open>ok_env\<close>, and the calls it has made by then.\<close>

definition setup_events :: "event list" where
  "setup_events = [E_open True, E_querycap True, E_s_fmt True, E_reqbufs True,
     E_querybuf True, E_mmap True, E_qbuf 0 True,
     E_streamon (Val V4L2_BUF_TYPE_VIDEO_CAPTURE) True]"

definition discarded_frame :: "event list" where
  "discarded_frame = [E_select Sel_ready, E_dqbuf True, E_qbuf 0 True]"

definition teardown_events :: "event list" where
  "teardown_events = [E_streamoff Indeterminate True, E_munmap (Addr 4096) 614400 True,
     E_close 3 True]"

definition ok_final :: state where
  "ok_final = \<lparr>fd = 3, buffer = NULL, len_buff = 614400, frames_received = 5, errno = 0,
     trace = setup_events @ discarded_frame @ discarded_frame @ discarded_frame @
       discarded_frame @
       [E_select Sel_ready, E_dqbuf True, E_fopen ''frame.jpg'' True,
        E_fwrite (Addr 4096) 1000 True, E_fclose True] @ teardown_events\<rparr>"

text \<open>The state after \<^verbatim>\<open>start_capturing\<close> on such a device, with \<open>n\<close> frames received.\<close>

definition streaming_state :: "int \<Rightarrow> state" where
  "streaming_state n = \<lparr>fd = 3, buffer = Addr 4096, len_buff = 614400, frames_received = n,
     errno = 0, trace = setup_events\<rparr>"

text \<open>\<^verbatim>\<open>select\<close> fails with \<^verbatim>\<open>ENOMEM\<close> (12) on the first wait.\<close>

definition select_fails_env :: env where
  "select_fails_env = ok_env\<lparr>rounds := [ok_round\<lparr>select_r := Sel_error 12\<rparr>]\<rparr>"

text \<open>The first wait is interrupted by a signal, the second one times out.\<close>

definition interrupted_timeout_env :: env where
  "interrupted_timeout_env =
     ok_env\<lparr>rounds := [ok_round\<lparr>select_r := Sel_error EINTR\<rparr>,
                         ok_round\<lparr>select_r := Sel_timeout\<rparr>]\<rparr>"

text \<open>The driver never makes the descriptor readable: the first wait times out.\<close>

definition timeout_round :: round where
  "timeout_round = ok_round\<lparr>select_r := Sel_timeout\<rparr>"

definition timeout_env :: env where
  "timeout_env = ok_env\<lparr>rounds := [timeout_round]\<rparr>"

definition timeout_final :: state where
  "timeout_final = \<lparr>fd = 3, buffer = NULL, len_buff = 614400, frames_received = 0, errno = 0,
     trace = setup_events @ [E_select Sel_timeout] @ teardown_events\<rparr>"

text \<open>\<^verbatim>\<open>VIDIOC_DQBUF\<close> fails with \<^verbatim>\<open>EIO\<close> (5) on the first frame.\<close>

definition dqbuf_fails_round :: round where
  "dqbuf_fails_round = ok_round\<lparr>dqbuf_r := Inl 5\<rparr>"

definition dqbuf_fails_env :: env where
  "dqbuf_fails_env = ok_env\<lparr>rounds := [dqbuf_fails_round]\<rparr>"

text \<open>The first frame is dequeued and \<^verbatim>\<open>VIDIOC_QBUF\<close> then fails with \<^verbatim>\<open>EIO\<close>.\<close>

definition requeue_fails_env :: env where
  "requeue_fails_env = ok_env\<lparr>rounds := [ok_round\<lparr>qbuf_r := Inl 5\<rparr>]\<rparr>"

text \<open>\<^verbatim>\<open>frame.jpg\<close> cannot be opened for writing: \<^verbatim>\<open>fopen\<close> fails with \<^verbatim>\<open>EACCES\<close> (13).\<close>

definition fopen_fails_env :: env where
  "fopen_fails_env =
     ok_env\<lparr>rounds := [ok_round, ok_round, ok_round, ok_round, ok_round\<lparr>fopen_r := Inl 13\<rparr>]\<rparr>"

text \<open>The disk is full: \<^verbatim>\<open>fwrite\<close> writes no whole object and sets \<^verbatim>\<open>ENOSPC\<close> (28).\<close>

definition short_write_env :: env where
  "short_write_env =
     ok_env\<lparr>rounds := [ok_round, ok_round, ok_round, ok_round, ok_round\<lparr>fwrite_r := Inl 28\<rparr>]\<rparr>"

text \<open>The device advertises capture but not streaming.\<close>

definition no_streaming_env :: env where
  "no_streaming_env = ok_env\<lparr>querycap_r := Inr 0x00000001\<rparr>"

text \<open>\<^verbatim>\<open>mmap\<close> fails with \<^verbatim>\<open>ENOMEM\<close> (12).\<close>

definition mmap_fails_env :: env where
  "mmap_fails_env = ok_env\<lparr>mmap_r := Inl 12\<rparr>"

text \<open>\<^verbatim>\<open>VIDIOC_STREAMON\<close> fails with \<^verbatim>\<open>EIO\<close> (5).\<close>

definition streamon_fails_env :: env where
  "streamon_fails_env = ok_env\<lparr>streamon_r := Inl 5\<rparr>"

text \<open>Everything succeeds up to \<^verbatim>\<open>munmap\<close>, which fails with \<^verbatim>\<open>EINVAL\<close> (22).\<close>

definition munmap_fails_env :: env where
  "munmap_fails_env = ok_env\<lparr>munmap_r := Inl 22\<rparr>"

text \<open>The only round of the script reports no frame ready, so the loop is left waiting.\<close>

definition waiting_env :: env where
  "waiting_env = ok_env\<lparr>rounds := [ok_round\<lparr>dqbuf_r := Inl EAGAIN\<rparr>]\<rparr>"

text \<open>The fifth frame is reported with \<open>2 ^ 31\<close> bytes used.\<close>

definition huge_frame_round :: round where
  "huge_frame_round = ok_round\<lparr>dqbuf_r := Inr (0, 0x80000000)\<rparr>"

text \<open>
  The descriptor is readable \<open>n\<close> times with no frame ready (\<^verbatim>\<open>EAGAIN\<close>), and the dequeue
  after that fails with \<^verbatim>\<open>EIO\<close>.
\<close>

definition would_block_round :: round where
  "would_block_round = ok_round\<lparr>dqbuf_r := Inl EAGAIN\<rparr>"

definition would_block_env :: "nat \<Rightarrow> env" where
  "would_block_env n = ok_env\<lparr>rounds := replicate n would_block_round @ [dqbuf_fails_round]\<rparr>"

section \<open>Reading a run\<close>

text \<open>What a run shows from outside: the value \<^verbatim>\<open>main\<close> returns and the calls it made.\<close>

definition run :: "env \<Rightarrow> (int \<times> event list) option" where
  "run e = map_option (\<lambda>(rc, s). (rc, trace s)) (main e)"

definition succeeded :: "int + 'a \<Rightarrow> bool" where
  "succeeded r = (case r of Inl _ \<Rightarrow> False | Inr _ \<Rightarrow> True)"

fun is_close :: "event \<Rightarrow> bool" where
  "is_close (E_close _ _) = True"
| "is_close _ = False"

fun is_munmap :: "event \<Rightarrow> bool" where
  "is_munmap (E_munmap _ _ _) = True"
| "is_munmap _ = False"

definition is_teardown :: "event \<Rightarrow> bool" where
  "is_teardown ev = (is_munmap ev \<or> is_close ev)"

fun is_opened :: "event \<Rightarrow> bool" where
  "is_opened (E_open ok) = ok"
| "is_opened _ = False"

fun is_mapped :: "event \<Rightarrow> bool" where
  "is_mapped (E_mmap ok) = ok"
| "is_mapped _ = False"

text \<open>The life of the descriptor, and the life of the mapping inside it.\<close>

definition descriptor_event :: "event \<Rightarrow> bool" where
  "descriptor_event ev = (is_opened ev \<or> is_close ev)"

definition mapping_event :: "event \<Rightarrow> bool" where
  "mapping_event ev = (is_mapped ev \<or> is_munmap ev \<or> is_close ev)"

fun is_file_event :: "event \<Rightarrow> bool" where
  "is_file_event (E_fopen _ _) = True"
| "is_file_event (E_fwrite _ _ _) = True"
| "is_file_event (E_fclose _) = True"
| "is_file_event _ = False"

fun is_dequeued :: "event \<Rightarrow> bool" where
  "is_dequeued (E_dqbuf ok) = ok"
| "is_dequeued _ = False"

text \<open>The number of successful dequeues in a trace.\<close>

definition dequeued :: "event list \<Rightarrow> nat" where
  "dequeued t = length (filter is_dequeued t)"

text \<open>The calls of the phases between \<^verbatim>\<open>open\<close> and the teardown, \<^verbatim>\<open>mmap\<close> apart.\<close>

fun neutral :: "event \<Rightarrow> bool" where
  "neutral (E_querycap _) = True"
| "neutral (E_s_fmt _) = True"
| "neutral (E_reqbufs _) = True"
| "neutral (E_querybuf _) = True"
| "neutral (E_qbuf _ _) = True"
| "neutral (E_streamon _ _) = True"
| "neutral (E_streamoff _ _) = True"
| "neutral (E_select _) = True"
| "neutral _ = False"

text \<open>The calls \<^verbatim>\<open>main_loop\<close> can make.\<close>

fun loop_event :: "event \<Rightarrow> bool" where
  "loop_event (E_select _) = True"
| "loop_event (E_dqbuf _) = True"
| "loop_event (E_qbuf _ _) = True"
| "loop_event (E_fopen _ _) = True"
| "loop_event (E_fwrite _ _ _) = True"
| "loop_event (E_fclose _) = True"
| "loop_event _ = False"

text \<open>
  \<open>extends P s s'\<close>: from \<open>s\<close> to \<open>s'\<close> the descriptor and the mapping are untouched and
  only calls of kind \<open>P\<close> were made.
\<close>

definition extends :: "(event \<Rightarrow> bool) \<Rightarrow> state \<Rightarrow> state \<Rightarrow> bool" where
  "extends P s s' =
     (fd s' = fd s \<and> buffer s' = buffer s \<and> len_buff s' = len_buff s \<and>
      (\<exists>evs. trace s' = trace s @ evs \<and> list_all P evs))"

text \<open>
  \<open>holding e s\<close>: nothing has been released yet, \<^verbatim>\<open>_fd\<close> is the descriptor \<^verbatim>\<open>open\<close> gave, and
  if \<^verbatim>\<open>mmap\<close> has succeeded then \<^verbatim>\<open>_buffer\<close> and \<^verbatim>\<open>_len_buff\<close> describe that mapping.
\<close>

definition holding :: "env \<Rightarrow> state \<Rightarrow> bool" where
  "holding e s =
     (filter is_teardown (trace s) = [] \<and>
      (\<forall>d. open_r e = Inr d \<longrightarrow> fd s = int d \<and> filter is_opened (trace s) = [E_open True]) \<and>
      (filter is_mapped (trace s) \<noteq> [] \<longrightarrow>
         filter is_mapped (trace s) = [E_mmap True] \<and>
         (\<exists>a len. mmap_r e = Inr a \<and> querybuf_r e = Inr len \<and>
            buffer s = Addr a \<and> len_buff s = len)))"

text \<open>
  \<open>counted s\<close>: \<^verbatim>\<open>frames_received\<close> is the number of successful dequeues so far, and the
  output file has been touched only if that number has reached the target.
\<close>

definition counted :: "state \<Rightarrow> bool" where
  "counted s =
     (frames_received s = int (dequeued (trace s)) \<and>
      (filter is_file_event (trace s) \<noteq> [] \<longrightarrow> STORE_AFTER_X_FRAMES \<le> frames_received s))"

section \<open>What each function does to the trace\<close>

lemmas phase_defs = init_device_def init_mmap_def start_capturing_def stop_capturing_def
  uninit_mmap_def close_device_def open_device_def syscall_def emit_def Let_def

lemmas eval_defs = run_def main_def main_loop_def read_frame_def process_image_def phase_defs
  init_state_def ok_env_def ok_round_def V4L2_CAP_VIDEO_CAPTURE_def V4L2_CAP_STREAMING_def
  EINTR_def EAGAIN_def STORE_AFTER_X_FRAMES_def setup_events_def
  discarded_frame_def teardown_events_def

lemma uninit_mmap_trace:
  "trace (snd (uninit_mmap e s)) =
     trace s @ [E_munmap (buffer s) (len_buff s) (succeeded (munmap_r e))]"
  by (simp add: phase_defs succeeded_def split: sum.splits)

lemma uninit_mmap_fd: "fd (snd (uninit_mmap e s)) = fd s"
  by (simp add: phase_defs split: sum.splits)

lemma close_device_trace:
  "trace (snd (close_device e s)) = trace s @ [E_close (fd s) (succeeded (close_r e))]"
  by (simp add: phase_defs succeeded_def split: sum.splits)

lemma close_device_fd: "fd (snd (close_device e s)) = fd s"
  by (simp add: phase_defs split: sum.splits)

lemma extends_trans: "extends P s s' \<Longrightarrow> extends P s' s'' \<Longrightarrow> extends P s s''"
  by (auto simp: extends_def)

lemma init_device_extends: "extends neutral s (snd (init_device e s))"
  by (simp add: extends_def phase_defs split: sum.splits)

lemma start_capturing_extends: "extends neutral s (snd (start_capturing e s))"
  by (simp add: extends_def phase_defs split: sum.splits)

lemma stop_capturing_extends: "extends neutral s (snd (stop_capturing e s))"
  by (simp add: extends_def phase_defs split: sum.splits)

lemma read_frame_extends: "extends loop_event s (snd (read_frame r s))"
  by (simp add: extends_def read_frame_def process_image_def phase_defs
      split: sum.splits prod.splits)

text \<open>The loop, by induction on the rounds it consumes.\<close>

lemma for_loop_extends:
  "for_loop rs s = Some (x, s') \<Longrightarrow> extends loop_event s s'"
proof (induction rs arbitrary: s)
  case Nil
  then show ?case by simp
next
  case (Cons r rs)
  show ?case
  proof (cases "select_r r")
    case (Sel_error er)
    let ?s1 = "emit (E_select (Sel_error er)) (s\<lparr>errno := er\<rparr>)"
    have step: "extends loop_event s ?s1"
      by (simp add: extends_def emit_def)
    show ?thesis
    proof (cases "EINTR = er")
      case True
      with Cons.prems Sel_error have "for_loop rs ?s1 = Some (x, s')"
        by (simp add: Let_def emit_def)
      from extends_trans [OF step Cons.IH [OF this]] show ?thesis .
    next
      case False
      with Cons.prems Sel_error have "s' = ?s1"
        by (auto simp: Let_def emit_def)
      with step show ?thesis by simp
    qed
  next
    case Sel_timeout
    with Cons.prems have "s' = emit (E_select Sel_timeout) s"
      by (auto simp: Let_def)
    then show ?thesis by (simp add: extends_def emit_def)
  next
    case Sel_ready
    let ?s0 = "emit (E_select Sel_ready) s"
    obtain rc s1 where rf: "read_frame r ?s0 = (rc, s1)"
      by (cases "read_frame r ?s0")
    have "extends loop_event s ?s0"
      by (simp add: extends_def emit_def)
    moreover from read_frame_extends [of ?s0 r] rf have "extends loop_event ?s0 s1"
      by simp
    ultimately have step: "extends loop_event s s1"
      by (rule extends_trans)
    show ?thesis
    proof (cases "rc \<noteq> 0")
      case True
      with Cons.prems Sel_ready rf have "s' = s1" by simp
      with step show ?thesis by simp
    next
      case False
      with Cons.prems Sel_ready rf have "for_loop rs s1 = Some (x, s')" by simp
      from extends_trans [OF step Cons.IH [OF this]] show ?thesis .
    qed
  qed
qed

lemma main_loop_extends:
  "main_loop rs s = Some (rc, s') \<Longrightarrow> extends loop_event s s'"
  by (auto simp: main_loop_def split: option.splits loop_exit.splits dest: for_loop_extends)


section \<open>The descriptor and the mapping along a run\<close>

lemma quiet_filter:
  "list_all P evs \<Longrightarrow> (\<And>ev. P ev \<Longrightarrow> \<not> Q ev) \<Longrightarrow> filter Q evs = []"
  by (induction evs) auto

lemma neutral_plain:
  "neutral ev \<Longrightarrow> \<not> is_teardown ev \<and> \<not> is_opened ev \<and> \<not> is_mapped ev"
  by (cases ev) (simp_all add: is_teardown_def)

lemma loop_event_plain:
  "loop_event ev \<Longrightarrow> \<not> is_teardown ev \<and> \<not> is_opened ev \<and> \<not> is_mapped ev"
  by (cases ev) (simp_all add: is_teardown_def)

lemma no_teardown_filters:
  assumes "filter is_teardown t = []"
  shows "filter descriptor_event t = filter is_opened t"
    and "filter mapping_event t = filter is_mapped t"
  using assms
  by (induction t) (auto simp: is_teardown_def descriptor_event_def mapping_event_def
      split: if_splits)

lemma mapped_iff: "E_mmap True \<in> set t \<longleftrightarrow> filter is_mapped t \<noteq> []"
proof (induction t)
  case Nil
  show ?case by simp
next
  case (Cons ev t)
  then show ?case by (cases ev) auto
qed

lemma open_device_holding:
  assumes "open_device e init_state = (r, s')"
  shows "holding e s'" and "filter is_mapped (trace s') = []" and "open_r e = Inr d \<Longrightarrow> r = 0"
  using assms
  by (auto simp: phase_defs init_state_def holding_def is_teardown_def
      split: sum.splits if_splits)

lemma extends_holding:
  assumes "extends P s s'"
    and "\<And>ev. P ev \<Longrightarrow> \<not> is_teardown ev \<and> \<not> is_opened ev \<and> \<not> is_mapped ev"
    and "holding e s"
  shows "holding e s'" and "filter is_mapped (trace s') = filter is_mapped (trace s)"
proof -
  from assms(1) obtain evs where evs: "trace s' = trace s @ evs" "list_all P evs"
    and same: "fd s' = fd s" "buffer s' = buffer s" "len_buff s' = len_buff s"
    by (auto simp: extends_def)
  from assms(2) have "filter is_teardown evs = []"
    by (intro quiet_filter [OF evs(2)]) simp
  moreover from assms(2) have "filter is_opened evs = []"
    by (intro quiet_filter [OF evs(2)]) simp
  moreover from assms(2) have "filter is_mapped evs = []"
    by (intro quiet_filter [OF evs(2)]) simp
  ultimately show "holding e s'"
    and "filter is_mapped (trace s') = filter is_mapped (trace s)"
    using assms(3) evs(1) same by (auto simp: holding_def)
qed

lemma neutral_holding:
  assumes "extends neutral s s'" and "holding e s"
  shows "holding e s'" and "filter is_mapped (trace s') = filter is_mapped (trace s)"
  using extends_holding [OF assms(1) neutral_plain assms(2)] by auto

lemma loop_holding:
  assumes "extends loop_event s s'" and "holding e s"
  shows "holding e s'" and "filter is_mapped (trace s') = filter is_mapped (trace s)"
  using extends_holding [OF assms(1) loop_event_plain assms(2)] by auto

lemma init_mmap_holding:
  assumes "init_mmap e s = (r, s')" and "holding e s" and "filter is_mapped (trace s) = []"
  shows "holding e s'" and "filter is_mapped (trace s') \<noteq> [] \<Longrightarrow> r = 0"
  using assms
  by (auto simp: phase_defs holding_def is_teardown_def split: sum.splits if_splits)

text \<open>The two ways \<^verbatim>\<open>main\<close> ends once the device is open.\<close>

lemma close_released:
  assumes "holding e s" and "filter is_mapped (trace s) = []"
    and "s' = snd (close_device e s)"
  shows "(\<forall>d. open_r e = Inr d \<longrightarrow>
            filter descriptor_event (trace s') =
              [E_open True, E_close (int d) (succeeded (close_r e))]) \<and>
         E_mmap True \<notin> set (trace s')"
  using assms no_teardown_filters [of "trace s"]
  by (simp add: holding_def close_device_trace descriptor_event_def mapped_iff)

lemma unmap_close_released:
  assumes "holding e s" and "s' = snd (close_device e (snd (uninit_mmap e s)))"
  shows "(\<forall>d. open_r e = Inr d \<longrightarrow>
            filter descriptor_event (trace s') =
              [E_open True, E_close (int d) (succeeded (close_r e))]) \<and>
         (E_mmap True \<in> set (trace s') \<longrightarrow>
            (\<exists>a len. mmap_r e = Inr a \<and> querybuf_r e = Inr len \<and>
               filter mapping_event (trace s') =
                 [E_mmap True, E_munmap (Addr a) len (succeeded (munmap_r e)),
                  E_close (fd s') (succeeded (close_r e))]))"
  using assms no_teardown_filters [of "trace s"]
  by (auto simp: holding_def close_device_trace uninit_mmap_trace uninit_mmap_fd
      close_device_fd descriptor_event_def mapping_event_def mapped_iff)

section \<open>The frame counter along a run\<close>

lemma counted_init: "counted init_state"
  by (simp add: counted_def init_state_def dequeued_def)

lemma counted_same:
  assumes "counted s" and "frames_received s' = frames_received s"
    and "filter is_dequeued (trace s') = filter is_dequeued (trace s)"
    and "filter is_file_event (trace s') = filter is_file_event (trace s)"
  shows "counted s'"
  using assms by (auto simp: counted_def dequeued_def)

lemma counted_emit:
  "counted s \<Longrightarrow> \<not> is_dequeued ev \<Longrightarrow> \<not> is_file_event ev \<Longrightarrow> counted (emit ev s)"
  by (rule counted_same) (simp_all add: emit_def)

lemma counted_errno: "counted (s\<lparr>errno := er\<rparr>) = counted s"
  by (simp add: counted_def)

lemma counted_open_device:
  assumes "counted s"
  shows "counted (snd (open_device e s))"
  using assms by (rule counted_same) (simp_all add: phase_defs split: sum.splits)

lemma counted_init_device:
  assumes "counted s"
  shows "counted (snd (init_device e s))"
  using assms by (rule counted_same) (simp_all add: phase_defs split: sum.splits)

lemma counted_init_mmap:
  assumes "counted s"
  shows "counted (snd (init_mmap e s))"
  using assms by (rule counted_same) (simp_all add: phase_defs split: sum.splits)

lemma counted_start_capturing:
  assumes "counted s"
  shows "counted (snd (start_capturing e s))"
  using assms by (rule counted_same) (simp_all add: phase_defs split: sum.splits)

lemma counted_stop_capturing:
  assumes "counted s"
  shows "counted (snd (stop_capturing e s))"
  using assms by (rule counted_same) (simp_all add: phase_defs split: sum.splits)

lemma counted_uninit_mmap:
  assumes "counted s"
  shows "counted (snd (uninit_mmap e s))"
  using assms by (rule counted_same) (simp_all add: phase_defs split: sum.splits)

lemma counted_close_device:
  assumes "counted s"
  shows "counted (snd (close_device e s))"
  using assms by (rule counted_same) (simp_all add: phase_defs split: sum.splits)

lemmas counted_phases = counted_open_device counted_init_device counted_init_mmap
  counted_start_capturing counted_stop_capturing counted_uninit_mmap counted_close_device

text \<open>
  \<^verbatim>\<open>read_frame\<close> counts a frame exactly when the dequeue succeeds, and calls
  \<^verbatim>\<open>process_image\<close> only when the count has just become 5. While the count is below 5 it
  stays at most 5, and it is still below 5 whenever \<^verbatim>\<open>read_frame\<close> returns 0.
\<close>

lemma counted_read_frame: "counted s \<Longrightarrow> counted (snd (read_frame r s))"
  by (auto simp: counted_def dequeued_def read_frame_def process_image_def phase_defs
      STORE_AFTER_X_FRAMES_def split: sum.splits prod.splits)

lemma read_frame_frames_le:
  assumes "frames_received s < 5" and "read_frame r s = (rc, s')"
  shows "frames_received s' \<le> 5" and "rc = 0 \<Longrightarrow> frames_received s' < 5"
  using assms
  by (auto simp: read_frame_def process_image_def phase_defs STORE_AFTER_X_FRAMES_def
      split: sum.splits prod.splits if_splits)

lemma for_loop_invariants:
  "for_loop rs s = Some (x, s') \<Longrightarrow> counted s \<Longrightarrow> frames_received s < 5 \<Longrightarrow>
     counted s' \<and> frames_received s' \<le> 5"
proof (induction rs arbitrary: s)
  case Nil
  then show ?case by simp
next
  case (Cons r rs)
  show ?case
  proof (cases "select_r r")
    case (Sel_error er)
    let ?s1 = "emit (E_select (Sel_error er)) (s\<lparr>errno := er\<rparr>)"
    from Cons.prems(2) have c1: "counted ?s1"
      by (simp add: counted_emit counted_errno)
    from Cons.prems(3) have f1: "frames_received ?s1 < 5"
      by (simp add: emit_def)
    show ?thesis
    proof (cases "EINTR = er")
      case True
      with Cons.prems(1) Sel_error have "for_loop rs ?s1 = Some (x, s')"
        by (simp add: Let_def emit_def)
      from Cons.IH [OF this c1 f1] show ?thesis .
    next
      case False
      with Cons.prems(1) Sel_error have "s' = ?s1"
        by (auto simp: Let_def emit_def)
      with c1 f1 show ?thesis by simp
    qed
  next
    case Sel_timeout
    with Cons.prems(1) have "s' = emit (E_select Sel_timeout) s"
      by (auto simp: Let_def)
    with Cons.prems(2,3) show ?thesis by (simp add: counted_emit) (simp add: emit_def)
  next
    case Sel_ready
    let ?s0 = "emit (E_select Sel_ready) s"
    obtain rc s1 where rf: "read_frame r ?s0 = (rc, s1)"
      by (cases "read_frame r ?s0")
    from Cons.prems(2) have c0: "counted ?s0"
      by (simp add: counted_emit)
    from Cons.prems(3) have f0: "frames_received ?s0 < 5"
      by (simp add: emit_def)
    from counted_read_frame [OF c0, of r] rf have c1: "counted s1" by simp
    note f1 = read_frame_frames_le [OF f0 rf]
    show ?thesis
    proof (cases "rc \<noteq> 0")
      case True
      with Cons.prems(1) Sel_ready rf have "s' = s1" by simp
      with c1 f1(1) show ?thesis by simp
    next
      case False
      with Cons.prems(1) Sel_ready rf have "for_loop rs s1 = Some (x, s')" by simp
      moreover note c1
      moreover from False f1(2) have "frames_received s1 < 5" by simp
      ultimately show ?thesis by (rule Cons.IH)
    qed
  qed
qed

lemma main_loop_invariants:
  "main_loop rs s = Some (rc, s') \<Longrightarrow> counted s \<Longrightarrow> frames_received s < 5 \<Longrightarrow>
     counted s' \<and> frames_received s' \<le> 5"
  by (auto simp: main_loop_def split: option.splits loop_exit.splits dest: for_loop_invariants)

lemma phases_keep_frames:
  "frames_received (snd (open_device e s)) = frames_received s"
  "frames_received (snd (init_device e s)) = frames_received s"
  "frames_received (snd (init_mmap e s)) = frames_received s"
  "frames_received (snd (start_capturing e s)) = frames_received s"
  "frames_received (snd (stop_capturing e s)) = frames_received s"
  "frames_received (snd (uninit_mmap e s)) = frames_received s"
  "frames_received (snd (close_device e s)) = frames_received s"
  by (simp_all add: phase_defs split: sum.splits)

lemma main_counted:
  assumes "main e = Some (rc, s)"
  shows "counted s \<and> frames_received s \<le> 5"
proof -
  let ?s4 = "snd (start_capturing e (snd (init_mmap e (snd (init_device e
    (snd (open_device e init_state)))))))"
  have c4: "counted ?s4"
    by (intro counted_phases counted_init)
  have f4: "frames_received ?s4 < 5"
    by (simp add: phases_keep_frames init_state_def)
  have loop: "counted s5 \<and> frames_received s5 \<le> 5"
    if "main_loop (rounds e) ?s4 = Some (r5, s5)" for r5 s5
    using main_loop_invariants [OF that c4 f4] .
  have init: "frames_received init_state \<le> 5"
    by (simp add: init_state_def)
  from assms show ?thesis
    by (auto simp: main_def case_prod_beta phases_keep_frames init split: if_splits option.splits
        intro!: counted_phases counted_init dest: loop)
qed

lemma main_frames_le: "main e = Some (rc, s) \<Longrightarrow> frames_received s \<le> 5"
  by (simp add: main_counted)

section \<open>Properties of the program\<close>

lemma main_ok_env: "main ok_env = Some (0, ok_final)"
  by (simp add: eval_defs ok_final_def)

text \<open>What a run that returns has done with the descriptor and the mapping.\<close>

lemma main_released:
  assumes "main e = Some (rc, s)"
  shows "(\<forall>d. open_r e = Inr d \<longrightarrow>
            filter descriptor_event (trace s) =
              [E_open True, E_close (int d) (succeeded (close_r e))]) \<and>
         (E_mmap True \<in> set (trace s) \<longrightarrow>
            (\<exists>a len. mmap_r e = Inr a \<and> querybuf_r e = Inr len \<and>
               filter mapping_event (trace s) =
                 [E_mmap True, E_munmap (Addr a) len (succeeded (munmap_r e)),
                  E_close (fd s) (succeeded (close_r e))]))"
proof -
  obtain r1 s1 where p1: "open_device e init_state = (r1, s1)"
    by (cases "open_device e init_state")
  obtain r2 s2 where p2: "init_device e s1 = (r2, s2)"
    by (cases "init_device e s1")
  obtain r3 s3 where p3: "init_mmap e s2 = (r3, s3)"
    by (cases "init_mmap e s2")
  obtain r4 s4 where p4: "start_capturing e s3 = (r4, s4)"
    by (cases "start_capturing e s3")
  note h1 = open_device_holding [OF p1]
  from init_device_extends [of s1 e] p2 have "extends neutral s1 s2" by simp
  note h2 = neutral_holding [OF this h1(1)]
  from h2(2) h1(2) have u2: "filter is_mapped (trace s2) = []" by simp
  note h3 = init_mmap_holding [OF p3 h2(1) u2]
  from start_capturing_extends [of s3 e] p4 have "extends neutral s3 s4" by simp
  note h4 = neutral_holding [OF this h3(1)]
  show ?thesis
  proof (cases "r1 \<noteq> 0")
    case True
    with assms p1 have "s = s1" by (simp add: main_def)
    with h1 True show ?thesis by (auto simp: mapped_iff)
  next
    case n1: False
    show ?thesis
    proof (cases "r2 \<noteq> 0")
      case True
      with assms p1 p2 n1 have "s = snd (close_device e s2)" by (simp add: main_def)
      from close_released [OF h2(1) u2 this] show ?thesis by simp
    next
      case n2: False
      show ?thesis
      proof (cases "r3 \<noteq> 0")
        case True
        with assms p1 p2 p3 n1 n2 have "s = snd (close_device e s3)" by (simp add: main_def)
        moreover from True h3(2) have "filter is_mapped (trace s3) = []" by auto
        ultimately show ?thesis using close_released [OF h3(1)] by simp
      next
        case n3: False
        show ?thesis
        proof (cases "r4 \<noteq> 0")
          case True
          with assms p1 p2 p3 p4 n1 n2 n3
          have "s = snd (close_device e (snd (uninit_mmap e s4)))" by (simp add: main_def)
          from unmap_close_released [OF h4(1) this] show ?thesis .
        next
          case n4: False
          from assms p1 p2 p3 p4 n1 n2 n3 n4 obtain r5 s5
            where p5: "main_loop (rounds e) s4 = Some (r5, s5)"
            by (auto simp: main_def split: option.splits)
          note h5 = loop_holding [OF main_loop_extends [OF p5] h4(1)]
          obtain r6 s6 where p6: "stop_capturing e s5 = (r6, s6)"
            by (cases "stop_capturing e s5")
          from stop_capturing_extends [of s5 e] p6 have "extends neutral s5 s6" by simp
          note h6 = neutral_holding [OF this h5(1)]
          from assms p1 p2 p3 p4 p5 p6 n1 n2 n3 n4
          have "s = snd (close_device e (snd (uninit_mmap e s5))) \<or>
                s = snd (close_device e (snd (uninit_mmap e s6)))"
            by (auto simp: main_def split: if_splits prod.splits)
          then show ?thesis
          proof
            assume "s = snd (close_device e (snd (uninit_mmap e s5)))"
            from unmap_close_released [OF h5(1) this] show ?thesis .
          next
            assume "s = snd (close_device e (snd (uninit_mmap e s6)))"
            from unmap_close_released [OF h6(1) this] show ?thesis .
          qed
        qed
      qed
    qed
  qed
qed

text \<open>
  \<^verbatim>\<open>main\<close> returns on every path but one: it does not return exactly when it has entered
  \<^verbatim>\<open>main_loop\<close> and the loop is still waiting when the rounds are used up, and then every
  round was one after which the loop can go on. A failure before the loop always returns
  -1.
\<close>

lemma main_None_iff:
  "main e = None \<longleftrightarrow> (\<exists>s4. entered_loop e = Some s4 \<and> for_loop (rounds e) s4 = None)"
  by (auto simp: main_def entered_loop_def main_loop_def
      split: prod.splits if_splits option.splits loop_exit.splits)

lemma rollback_returns:
  "entered_loop e = None \<Longrightarrow> \<exists>s. main e = Some (- 1, s)"
  by (auto simp: main_def entered_loop_def split: prod.splits if_splits)

lemma read_frame_zero_waiting:
  "read_frame r s = (0, s') \<Longrightarrow> select_r r = Sel_ready \<Longrightarrow> keeps_waiting r"
  by (auto simp: read_frame_def process_image_def syscall_def emit_def Let_def keeps_waiting_def
      split: sum.splits prod.splits if_splits)

lemma for_loop_None_waiting:
  "for_loop rs s = None \<Longrightarrow> list_all keeps_waiting rs"
proof (induction rs arbitrary: s)
  case Nil
  show ?case by simp
next
  case (Cons r rs)
  show ?case
  proof (cases "select_r r")
    case (Sel_error er)
    with Cons.prems have "EINTR = er"
      and "for_loop rs (emit (E_select (Sel_error er)) (s\<lparr>errno := er\<rparr>)) = None"
      by (auto simp: Let_def emit_def split: if_splits)
    with Sel_error Cons.IH show ?thesis
      by (simp add: keeps_waiting_def)
  next
    case Sel_timeout
    with Cons.prems show ?thesis by (simp add: Let_def)
  next
    case Sel_ready
    obtain rc s1 where rf: "read_frame r (emit (E_select Sel_ready) s) = (rc, s1)"
      by (cases "read_frame r (emit (E_select Sel_ready) s)")
    with Cons.prems Sel_ready have "rc = 0" and "for_loop rs s1 = None"
      by (auto split: if_splits)
    with rf Sel_ready Cons.IH read_frame_zero_waiting show ?thesis
      by auto
  qed
qed

text \<open>
  C7. \<^verbatim>\<open>main\<close> returns on every path except while the loop is still waiting; a failure
  before the loop returns -1. In every run that returns, a successful \<^verbatim>\<open>open\<close> is
  followed by exactly one \<^verbatim>\<open>close\<close>, of the descriptor that was opened; a successful
  \<^verbatim>\<open>mmap\<close> is followed by exactly one \<^verbatim>\<open>munmap\<close>, of the address and length that were
  mapped, and that \<^verbatim>\<open>munmap\<close> comes before the one \<^verbatim>\<open>close\<close>. The \<^verbatim>\<open>close\<close> is made
  whether \<^verbatim>\<open>munmap\<close> succeeds or fails.
\<close>

theorem acquired_resources_released_once:
  "(main e = None \<longleftrightarrow>
      (\<exists>s4. entered_loop e = Some s4 \<and> for_loop (rounds e) s4 = None)) \<and>
   (main e = None \<longrightarrow> list_all keeps_waiting (rounds e)) \<and>
   (entered_loop e = None \<longrightarrow> (\<exists>s. main e = Some (- 1, s))) \<and>
   (\<forall>rc s. main e = Some (rc, s) \<longrightarrow>
      (\<forall>d. open_r e = Inr d \<longrightarrow>
         filter descriptor_event (trace s) =
           [E_open True, E_close (int d) (succeeded (close_r e))]) \<and>
      (E_mmap True \<in> set (trace s) \<longrightarrow>
         (\<exists>a len. mmap_r e = Inr a \<and> querybuf_r e = Inr len \<and>
            filter mapping_event (trace s) =
              [E_mmap True, E_munmap (Addr a) len (succeeded (munmap_r e)),
               E_close (fd s) (succeeded (close_r e))])))"
proof -
  have "list_all keeps_waiting (rounds e)" if "main e = None"
    using that main_None_iff [of e] for_loop_None_waiting by blast
  with main_None_iff [of e] rollback_returns [of e] main_released [of e]
  show ?thesis by blast
qed

theorem acquired_resources_released_once_witness:
  "main ok_env = Some (0, ok_final) \<and> open_r ok_env = Inr 3 \<and>
   E_mmap True \<in> set (trace ok_final) \<and>
   filter descriptor_event (trace ok_final) = [E_open True, E_close 3 True] \<and>
   filter mapping_event (trace ok_final) =
     [E_mmap True, E_munmap (Addr 4096) 614400 True, E_close 3 True] \<and>
   entered_loop no_streaming_env = None \<and>
   run no_streaming_env = Some (- 1, [E_open True, E_querycap True, E_close 3 True]) \<and>
   entered_loop mmap_fails_env = None \<and>
   run mmap_fails_env =
     Some (- 1, [E_open True, E_querycap True, E_s_fmt True, E_reqbufs True, E_querybuf True,
                 E_mmap False, E_close 3 True]) \<and>
   entered_loop streamon_fails_env = None \<and>
   run streamon_fails_env =
     Some (- 1, [E_open True, E_querycap True, E_s_fmt True, E_reqbufs True, E_querybuf True,
                 E_mmap True, E_qbuf 0 True,
                 E_streamon (Val V4L2_BUF_TYPE_VIDEO_CAPTURE) False,
                 E_munmap (Addr 4096) 614400 True, E_close 3 True]) \<and>
   map_option fst (main munmap_fails_env) = Some (- 1) \<and>
   map_option (filter mapping_event \<circ> trace \<circ> snd) (main munmap_fails_env) =
     Some [E_mmap True, E_munmap (Addr 4096) 614400 False, E_close 3 True] \<and>
   main waiting_env = None \<and> entered_loop waiting_env = Some (streaming_state 0) \<and>
   rounds waiting_env = [would_block_round] \<and>
   for_loop [would_block_round] (streaming_state 0) = None \<and>
   list_all keeps_waiting [would_block_round]"
proof -
  note ok = acquired_resources_released_once [of ok_env]
  note a = acquired_resources_released_once [of no_streaming_env]
  note b = acquired_resources_released_once [of mmap_fails_env]
  note c = acquired_resources_released_once [of streamon_fails_env]
  note d = acquired_resources_released_once [of munmap_fails_env]
  note w = acquired_resources_released_once [of waiting_env]
  have runs:
    "run no_streaming_env = Some (- 1, [E_open True, E_querycap True, E_close 3 True])"
    "run mmap_fails_env =
       Some (- 1, [E_open True, E_querycap True, E_s_fmt True, E_reqbufs True, E_querybuf True,
                   E_mmap False, E_close 3 True])"
    "run streamon_fails_env =
       Some (- 1, [E_open True, E_querycap True, E_s_fmt True, E_reqbufs True, E_querybuf True,
                   E_mmap True, E_qbuf 0 True,
                   E_streamon (Val V4L2_BUF_TYPE_VIDEO_CAPTURE) False,
                   E_munmap (Addr 4096) 614400 True, E_close 3 True])"
    by (simp_all add: eval_defs no_streaming_env_def mmap_fails_env_def streamon_fails_env_def)
  have entered:
    "entered_loop no_streaming_env = None" "entered_loop mmap_fails_env = None"
    "entered_loop streamon_fails_env = None"
    "entered_loop waiting_env = Some (streaming_state 0)"
    by (simp_all add: entered_loop_def eval_defs no_streaming_env_def mmap_fails_env_def
        streamon_fails_env_def waiting_env_def streaming_state_def)
  have waiting: "rounds waiting_env = [would_block_round]"
    "for_loop [would_block_round] (streaming_state 0) = None"
    "list_all keeps_waiting [would_block_round]"
    by (simp_all add: waiting_env_def would_block_round_def ok_round_def read_frame_def emit_def
        Let_def keeps_waiting_def EAGAIN_def)
  have bad_unmap: "map_option fst (main munmap_fails_env) = Some (- 1)"
    "map_option (filter mapping_event \<circ> trace \<circ> snd) (main munmap_fails_env) =
       Some [E_mmap True, E_munmap (Addr 4096) 614400 False, E_close 3 True]"
    by (simp_all add: eval_defs munmap_fails_env_def mapping_event_def)
  from ok a b c d w main_ok_env runs entered waiting bad_unmap show ?thesis
    by (simp add: ok_env_def ok_final_def setup_events_def discarded_frame_def
        teardown_events_def succeeded_def del: for_loop.simps)
qed

lemma main_timeout_env: "main timeout_env = Some (0, timeout_final)"
  by (simp add: eval_defs timeout_env_def timeout_round_def timeout_final_def)

text \<open>
  C10. In every run that returns with fewer than five successful dequeues, whatever phase
  it failed in, no call on the output file was made: no \<^verbatim>\<open>fopen\<close>, no \<^verbatim>\<open>fwrite\<close>, no
  \<^verbatim>\<open>fclose\<close>. The counter \<^verbatim>\<open>frames_received\<close> is the number of successful dequeues, and
  the file is touched only once it has reached 5.
\<close>

theorem no_file_access_before_fifth_frame:
  assumes "main e = Some (rc, s)" and "dequeued (trace s) < 5"
  shows "filter is_file_event (trace s) = [] \<and> frames_received s = int (dequeued (trace s))"
  using main_counted [OF assms(1)] assms(2)
  by (auto simp: counted_def STORE_AFTER_X_FRAMES_def)

theorem no_file_access_before_fifth_frame_witness:
  "main timeout_env = Some (0, timeout_final) \<and> dequeued (trace timeout_final) < 5 \<and>
   filter is_file_event (trace timeout_final) = [] \<and> frames_received timeout_final = 0"
  using no_file_access_before_fifth_frame [OF main_timeout_env] main_timeout_env
  by (simp add: dequeued_def timeout_final_def setup_events_def teardown_events_def)

text \<open>A count that fits a C \<^verbatim>\<open>int\<close> reaches \<^verbatim>\<open>process_image\<close> as itself.\<close>

lemma sint_small:
  fixes w :: u32
  assumes "uint w < 2 ^ 31"
  shows "sint w = uint w"
proof -
  have "- (2 ^ 31) \<le> (0::int)" by simp
  also have "0 \<le> uint w" by simp
  finally have "- (2 ^ 31) \<le> uint w" .
  from signed_take_bit_int_eq_self [OF this assms] show ?thesis
    by (simp add: sint_uint)
qed

text \<open>
  C6, as the program has it. \<^verbatim>\<open>frames_received\<close> starts at 0 and every successful
  dequeue adds one to it. When that makes it 5 the loop ends; and if \<^verbatim>\<open>frame.jpg\<close> opens,
  \<^verbatim>\<open>fwrite\<close> and \<^verbatim>\<open>fclose\<close> succeed and \<^verbatim>\<open>bytesused\<close> is below \<open>2 ^ 31\<close> (it is passed
  for an \<^verbatim>\<open>int\<close>), the file was opened, \<^verbatim>\<open>bytesused\<close> bytes at the mapped address were
  written to it in one piece, and it was closed. On any other successful dequeue the
  buffer of the same index is queued again, and if that succeeds the loop goes on with
  the next wait. In every run that touched the output file the counter is 5 at the end,
  and exactly five frames were dequeued.
\<close>

theorem frame_selection:
  assumes "dqbuf_r r = Inr (index, bytesused)" and "select_r r = Sel_ready"
  shows "frames_received init_state = 0 \<and>
     frames_received (snd (read_frame r s)) = frames_received s + 1 \<and>
     (frames_received s + 1 = STORE_AFTER_X_FRAMES \<longrightarrow>
        for_loop (r # rs) s = Some (Break, snd (read_frame r (emit (E_select Sel_ready) s))) \<and>
        (fopen_r r = Inr () \<and> fwrite_r r = Inr () \<and> fclose_r r = Inr () \<and>
         uint bytesused < 2 ^ 31 \<longrightarrow>
           trace (snd (read_frame r s)) = trace s @
             [E_dqbuf True, E_fopen ''frame.jpg'' True,
              E_fwrite (buffer s) (uint bytesused) True, E_fclose True])) \<and>
     (frames_received s + 1 \<noteq> STORE_AFTER_X_FRAMES \<longrightarrow>
        trace (snd (read_frame r s)) =
          trace s @ [E_dqbuf True, E_qbuf index (succeeded (qbuf_r r))] \<and>
        (qbuf_r r = Inr () \<longrightarrow>
           for_loop (r # rs) s =
             for_loop rs (snd (read_frame r (emit (E_select Sel_ready) s))))) \<and>
     (main e = Some (rc, s') \<and> filter is_file_event (trace s') \<noteq> [] \<longrightarrow>
        frames_received s' = STORE_AFTER_X_FRAMES \<and> dequeued (trace s') = 5)"
proof -
  have run_level: "frames_received s' = STORE_AFTER_X_FRAMES \<and> dequeued (trace s') = 5"
    if "main e = Some (rc, s')" and "filter is_file_event (trace s') \<noteq> []"
    using main_counted [OF that(1)] that(2)
    by (auto simp: counted_def STORE_AFTER_X_FRAMES_def)
  have step: "frames_received init_state = 0 \<and>
     frames_received (snd (read_frame r s)) = frames_received s + 1 \<and>
     (frames_received s + 1 = STORE_AFTER_X_FRAMES \<longrightarrow>
        for_loop (r # rs) s = Some (Break, snd (read_frame r (emit (E_select Sel_ready) s))) \<and>
        (fopen_r r = Inr () \<and> fwrite_r r = Inr () \<and> fclose_r r = Inr () \<and>
         uint bytesused < 2 ^ 31 \<longrightarrow>
           trace (snd (read_frame r s)) = trace s @
             [E_dqbuf True, E_fopen ''frame.jpg'' True,
              E_fwrite (buffer s) (uint bytesused) True, E_fclose True])) \<and>
     (frames_received s + 1 \<noteq> STORE_AFTER_X_FRAMES \<longrightarrow>
        trace (snd (read_frame r s)) =
          trace s @ [E_dqbuf True, E_qbuf index (succeeded (qbuf_r r))] \<and>
        (qbuf_r r = Inr () \<longrightarrow>
           for_loop (r # rs) s =
             for_loop rs (snd (read_frame r (emit (E_select Sel_ready) s)))))"
    using assms sint_small [of bytesused]
    by (auto simp: read_frame_def process_image_def syscall_def emit_def Let_def init_state_def
        succeeded_def split: sum.splits prod.splits)
  from step run_level show ?thesis by blast
qed

theorem frame_selection_witness:
  "dqbuf_r ok_round = Inr (0, 1000) \<and> select_r ok_round = Sel_ready \<and>
   fopen_r ok_round = Inr () \<and> fwrite_r ok_round = Inr () \<and> fclose_r ok_round = Inr () \<and>
   qbuf_r ok_round = Inr () \<and> uint (1000 :: u32) < 2 ^ 31 \<and>
   frames_received (streaming_state 4) + 1 = STORE_AFTER_X_FRAMES \<and>
   frames_received (snd (read_frame ok_round (streaming_state 4))) = 5 \<and>
   trace (snd (read_frame ok_round (streaming_state 4))) =
     setup_events @ [E_dqbuf True, E_fopen ''frame.jpg'' True,
                     E_fwrite (Addr 4096) 1000 True, E_fclose True] \<and>
   for_loop [ok_round] (streaming_state 4) =
     Some (Break, snd (read_frame ok_round (emit (E_select Sel_ready) (streaming_state 4)))) \<and>
   frames_received (streaming_state 0) + 1 \<noteq> STORE_AFTER_X_FRAMES \<and>
   frames_received (snd (read_frame ok_round (streaming_state 0))) = 1 \<and>
   trace (snd (read_frame ok_round (streaming_state 0))) =
     setup_events @ [E_dqbuf True, E_qbuf 0 True] \<and>
   for_loop [ok_round, timeout_round] (streaming_state 0) =
     for_loop [timeout_round]
       (snd (read_frame ok_round (emit (E_select Sel_ready) (streaming_state 0)))) \<and>
   main ok_env = Some (0, ok_final) \<and> filter is_file_event (trace ok_final) \<noteq> [] \<and>
   frames_received ok_final = STORE_AFTER_X_FRAMES \<and> dequeued (trace ok_final) = 5"
proof -
  have dq: "dqbuf_r ok_round = Inr (0, 1000)" and sel: "select_r ok_round = Sel_ready"
    by (simp_all add: ok_round_def)
  note fifth = frame_selection [OF dq sel, of "streaming_state 4" "[]" ok_env 0 ok_final]
  note first = frame_selection [OF dq sel, of "streaming_state 0" "[timeout_round]" ok_env 0 ok_final]
  have facts: "fopen_r ok_round = Inr ()" "qbuf_r ok_round = Inr ()"
    "fwrite_r ok_round = Inr ()" "fclose_r ok_round = Inr ()"
    "uint (1000 :: u32) < 2 ^ 31"
    "frames_received (streaming_state 4) + 1 = STORE_AFTER_X_FRAMES"
    "frames_received (streaming_state 0) + 1 \<noteq> STORE_AFTER_X_FRAMES"
    "buffer (streaming_state 4) = Addr 4096"
    "trace (streaming_state 4) = setup_events" "trace (streaming_state 0) = setup_events"
    "frames_received (streaming_state 4) = 4" "frames_received (streaming_state 0) = 0"
    "filter is_file_event (trace ok_final) \<noteq> []"
    by (simp_all add: ok_round_def streaming_state_def STORE_AFTER_X_FRAMES_def ok_final_def
        setup_events_def discarded_frame_def teardown_events_def)
  from fifth first facts main_ok_env dq sel show ?thesis
    by (simp add: succeeded_def STORE_AFTER_X_FRAMES_def del: for_loop.simps)
qed

text \<open>
  Successful dequeues on which the program does not do what C6 says of every one.
  The fifth frame reports \<open>2 ^ 31\<close> bytes used: the size handed to
  \<^verbatim>\<open>fwrite\<close> is \<open>- (2 ^ 31)\<close>. The fifth frame is dequeued and \<^verbatim>\<open>fopen\<close> fails: the loop
  ends and nothing was written. The fifth frame is dequeued and \<^verbatim>\<open>fwrite\<close>, or
  \<^verbatim>\<open>fclose\<close>, fails: the bytes did not reach the file. The first frame is dequeued and
  queuing it again fails: the loop ends there, with a round still to come, instead of
  going on.
\<close>

theorem frame_selection_counterexample:
  "dqbuf_r huge_frame_round = Inr (0, 0x80000000) \<and> select_r huge_frame_round = Sel_ready \<and>
   uint (0x80000000 :: u32) = 2147483648 \<and>
   frames_received (streaming_state 4) + 1 = STORE_AFTER_X_FRAMES \<and>
   trace (snd (read_frame huge_frame_round (streaming_state 4))) =
     setup_events @ [E_dqbuf True, E_fopen ''frame.jpg'' True,
                     E_fwrite (Addr 4096) (- 2147483648) True, E_fclose True] \<and>
   for_loop [ok_round\<lparr>fopen_r := Inl 13\<rparr>] (streaming_state 4) =
     Some (Break, \<lparr>fd = 3, buffer = Addr 4096, len_buff = 614400, frames_received = 5,
                   errno = 13,
                   trace = setup_events @
                     [E_select Sel_ready, E_dqbuf True, E_fopen ''frame.jpg'' False]\<rparr>) \<and>
   trace (snd (read_frame (ok_round\<lparr>fwrite_r := Inl 28\<rparr>) (streaming_state 4))) =
     setup_events @ [E_dqbuf True, E_fopen ''frame.jpg'' True,
                     E_fwrite (Addr 4096) 1000 False, E_fclose True] \<and>
   trace (snd (read_frame (ok_round\<lparr>fclose_r := Inl 5\<rparr>) (streaming_state 4))) =
     setup_events @ [E_dqbuf True, E_fopen ''frame.jpg'' True,
                     E_fwrite (Addr 4096) 1000 True, E_fclose False] \<and>
   for_loop [ok_round\<lparr>qbuf_r := Inl 5\<rparr>, ok_round] (streaming_state 0) =
     Some (Break, \<lparr>fd = 3, buffer = Addr 4096, len_buff = 614400, frames_received = 1,
                   errno = 5,
                   trace = setup_events @
                     [E_select Sel_ready, E_dqbuf True, E_qbuf 0 False]\<rparr>)"
  by (simp add: huge_frame_round_def ok_round_def streaming_state_def read_frame_def
      process_image_def syscall_def emit_def Let_def STORE_AFTER_X_FRAMES_def)

text \<open>One pass of the loop in which the dequeue reports \<^verbatim>\<open>EAGAIN\<close>.\<close>

lemma would_block_step:
  assumes "dqbuf_r r = Inl EAGAIN" and "select_r r = Sel_ready"
  shows "for_loop (r # rs) s =
     for_loop rs (s\<lparr>errno := EAGAIN, trace := trace s @ [E_select Sel_ready, E_dqbuf False]\<rparr>)"
  using assms by (simp add: read_frame_def emit_def Let_def)



text \<open>
  C1. Two runs that leave the loop by \<^verbatim>\<open>return errno\<close> after \<^verbatim>\<open>VIDIOC_STREAMON\<close> has
  succeeded: \<^verbatim>\<open>select\<close> fails with \<^verbatim>\<open>ENOMEM\<close>; or a wait is interrupted and the next
  one times out, so that the \<^verbatim>\<open>errno\<close> returned is the \<^verbatim>\<open>EINTR\<close> left by the first.
  In both, \<^verbatim>\<open>main\<close> unmaps, closes and returns -1 without any \<^verbatim>\<open>VIDIOC_STREAMOFF\<close>.
\<close>

theorem loop_failure_skips_streamoff:
  "run select_fails_env =
     Some (- 1, setup_events @
       [E_select (Sel_error 12), E_munmap (Addr 4096) 614400 True, E_close 3 True]) \<and>
   run interrupted_timeout_env =
     Some (- 1, setup_events @
       [E_select (Sel_error EINTR), E_select Sel_timeout,
        E_munmap (Addr 4096) 614400 True, E_close 3 True])"
  by (simp add: eval_defs select_fails_env_def interrupted_timeout_env_def)

text \<open>
  C2. Two runs in which the fifth frame cannot be stored: \<^verbatim>\<open>fopen\<close> fails, so that
  \<^verbatim>\<open>process_image\<close> returns -1 and writes nothing; or \<^verbatim>\<open>fwrite\<close> writes no whole
  object. In both, \<^verbatim>\<open>read_frame\<close> returns 1, the run goes through stream-off, unmap and
  close, and \<^verbatim>\<open>main\<close> returns 0.
\<close>

theorem persist_failure_not_propagated:
  "run fopen_fails_env =
     Some (0, setup_events @ discarded_frame @ discarded_frame @ discarded_frame @
       discarded_frame @
       [E_select Sel_ready, E_dqbuf True, E_fopen ''frame.jpg'' False] @ teardown_events) \<and>
   run short_write_env =
     Some (0, setup_events @ discarded_frame @ discarded_frame @ discarded_frame @
       discarded_frame @
       [E_select Sel_ready, E_dqbuf True, E_fopen ''frame.jpg'' True,
        E_fwrite (Addr 4096) 1000 False, E_fclose True] @ teardown_events)"
  by (simp add: eval_defs fopen_fails_env_def short_write_env_def)

text \<open>
  C3. Two runs in which a buffer ioctl of the loop fails with \<^verbatim>\<open>EIO\<close>: the first
  \<^verbatim>\<open>VIDIOC_DQBUF\<close>, or the \<^verbatim>\<open>VIDIOC_QBUF\<close> that queues the first frame again.
  \<^verbatim>\<open>read_frame\<close> returns the \<^verbatim>\<open>errno\<close>, which \<^verbatim>\<open>main_loop\<close> takes for the signal to
  \<^verbatim>\<open>break\<close>; it returns 0, and so does \<^verbatim>\<open>main\<close>, with no frame stored.
\<close>

theorem buffer_ioctl_failure_reports_success:
  "run dqbuf_fails_env =
     Some (0, setup_events @ [E_select Sel_ready, E_dqbuf False] @ teardown_events) \<and>
   run requeue_fails_env =
     Some (0, setup_events @ [E_select Sel_ready, E_dqbuf True, E_qbuf 0 False] @
       teardown_events)"
  by (simp add: eval_defs dqbuf_fails_env_def dqbuf_fails_round_def requeue_fails_env_def)

text \<open>
  C4. The run in which every call before the loop succeeds and the first wait times out:
  \<^verbatim>\<open>select\<close> returns 0 without setting \<^verbatim>\<open>errno\<close>, no call has failed before, so the
  \<^verbatim>\<open>errno\<close> that \<^verbatim>\<open>main_loop\<close> returns is 0, and \<^verbatim>\<open>main\<close> returns 0.
\<close>

theorem timeout_reports_success:
  "run timeout_env = Some (0, setup_events @ [E_select Sel_timeout] @ teardown_events)"
  by (simp add: eval_defs timeout_env_def timeout_round_def)

text \<open>Any number of passes in which the dequeue reports \<^verbatim>\<open>EAGAIN\<close>.\<close>

lemma for_loop_would_block:
  "for_loop (replicate n would_block_round @ rs) s =
     for_loop rs (if n = 0 then s
       else s\<lparr>errno := EAGAIN,
              trace := trace s @ concat (replicate n [E_select Sel_ready, E_dqbuf False])\<rparr>)"
proof (induction n arbitrary: s)
  case 0
  show ?case by simp
next
  case (Suc n)
  have wb: "dqbuf_r would_block_round = Inl EAGAIN" "select_r would_block_round = Sel_ready"
    by (simp_all add: would_block_round_def ok_round_def)
  let ?s1 = "s\<lparr>errno := EAGAIN, trace := trace s @ [E_select Sel_ready, E_dqbuf False]\<rparr>"
  have "for_loop (replicate (Suc n) would_block_round @ rs) s =
        for_loop (replicate n would_block_round @ rs) ?s1"
    using would_block_step [OF wb] by simp
  also have "\<dots> = for_loop rs (if n = 0 then ?s1
       else ?s1\<lparr>errno := EAGAIN,
              trace := trace ?s1 @ concat (replicate n [E_select Sel_ready, E_dqbuf False])\<rparr>)"
    by (rule Suc.IH)
  finally show ?case by simp
qed

lemma main_on_ok_device:
  assumes "open_r e = Inr 3" "querycap_r e = Inr 0x04200001" "s_fmt_r e = Inr ()"
    "reqbufs_r e = Inr ()" "querybuf_r e = Inr 614400" "mmap_r e = Inr 4096"
    "qbuf0_r e = Inr ()" "streamon_r e = Inr ()"
  shows "main e =
     (case main_loop (rounds e) (streaming_state 0) of
        None \<Rightarrow> None
      | Some (r5, s5) \<Rightarrow>
          if r5 \<noteq> 0 then Some (- 1, snd (close_device e (snd (uninit_mmap e s5))))
          else case stop_capturing e s5 of (r6, s6) \<Rightarrow>
            if r6 \<noteq> 0 then Some (- 1, snd (close_device e (snd (uninit_mmap e s6))))
            else case uninit_mmap e s6 of (r7, s7) \<Rightarrow>
              if r7 \<noteq> 0 then Some (- 1, snd (close_device e s7))
              else case close_device e s7 of (r8, s8) \<Rightarrow>
                if r8 \<noteq> 0 then Some (- 1, s8) else Some (0, s8))"
  using assms
  by (simp add: main_def open_device_def init_device_def init_mmap_def start_capturing_def
      syscall_def emit_def Let_def init_state_def streaming_state_def setup_events_def
      V4L2_CAP_VIDEO_CAPTURE_def V4L2_CAP_STREAMING_def)

text \<open>
  C5. For every \<open>n\<close>, the run in which \<open>n\<close> dequeues in a row report \<^verbatim>\<open>EAGAIN\<close> and the
  next one fails with \<^verbatim>\<open>EIO\<close>: the loop waits \<open>n + 1\<close> times, which is more than 70
  from \<open>n = 70\<close> on, and then ends; \<^verbatim>\<open>main\<close> returns 0 and no frame was stored.
\<close>

theorem wait_loop_unbounded:
  "run (would_block_env n) =
     Some (0, setup_events @ concat (replicate n [E_select Sel_ready, E_dqbuf False]) @
              [E_select Sel_ready, E_dqbuf False] @ teardown_events)"
proof -
  have loop: "main_loop (rounds (would_block_env n)) (streaming_state 0) =
      Some (0, (streaming_state 0)\<lparr>errno := 5,
        trace := setup_events @ concat (replicate n [E_select Sel_ready, E_dqbuf False]) @
          [E_select Sel_ready, E_dqbuf False]\<rparr>)"
    by (simp add: would_block_env_def main_loop_def for_loop_would_block)
      (simp add: dqbuf_fails_round_def ok_round_def read_frame_def emit_def EAGAIN_def
        streaming_state_def)
  have "main (would_block_env n) =
      Some (0, \<lparr>fd = 3, buffer = NULL, len_buff = 614400, frames_received = 0, errno = 5,
        trace = setup_events @ concat (replicate n [E_select Sel_ready, E_dqbuf False]) @
          [E_select Sel_ready, E_dqbuf False] @ teardown_events\<rparr>)"
    by (subst main_on_ok_device)
      (simp_all add: loop, simp_all add: would_block_env_def ok_env_def stop_capturing_def
        uninit_mmap_def close_device_def syscall_def emit_def streaming_state_def
        teardown_events_def)
  then show ?thesis by (simp add: run_def)
qed

text \<open>
  C9. \<^verbatim>\<open>stop_capturing\<close> hands \<^verbatim>\<open>VIDIOC_STREAMOFF\<close> the variable \<^verbatim>\<open>type\<close> as it was
  declared, without a value; \<^verbatim>\<open>start_capturing\<close> sets its own \<^verbatim>\<open>type\<close> to
  \<^verbatim>\<open>V4L2_BUF_TYPE_VIDEO_CAPTURE\<close> before \<^verbatim>\<open>VIDIOC_STREAMON\<close>.
\<close>

theorem stop_capturing_type_indeterminate:
  "trace (snd (stop_capturing e s)) =
     trace s @ [E_streamoff Indeterminate (succeeded (streamoff_r e))] \<and>
   run ok_env = Some (0, trace ok_final) \<and>
   E_streamoff Indeterminate True \<in> set (trace ok_final) \<and>
   E_streamon (Val V4L2_BUF_TYPE_VIDEO_CAPTURE) True \<in> set (trace ok_final)"
  by (simp add: stop_capturing_def syscall_def emit_def succeeded_def run_def main_ok_env
      ok_final_def setup_events_def teardown_events_def split: sum.splits)

end
